theory Spec2Isabelle
  imports Main "HOL-Library.Sublist"
begin

section \<open>The database layer (the schema document in src/app/layout.tsx, src/types/database.ts)\<close>

text \<open>
  The four tables of the schema are lists of rows. The columns keep the names of the
  schema; since several tables share column names (\<open>id\<close>, \<open>name\<close>, \<open>xml\<close>,
  \<open>project_id\<close>, ...), each record prefixes them with the table: \<open>pf_\<close> for
  \<open>profiles\<close>, \<open>prj_\<close> for \<open>projects\<close>, \<open>ver_\<close> for \<open>versions\<close> and \<open>shr_\<close> for
  \<open>project_sharing\<close>. A nullable column is an \<open>option\<close>. \<open>UUID\<close> and \<open>TEXT\<close> are strings,
  \<open>TIMESTAMPTZ\<close> is an integer instant, and \<open>INTEGER\<close> is an \<open>int\<close> whose 32-bit range is
  checked where a value is stored or computed (PostgreSQL raises on overflow, it does
  not wrap).
\<close>

type_synonym uuid = string
type_synonym timestamptz = int

record Profile =
  pf_id :: uuid
  pf_email :: string
  pf_full_name :: "string option"
  pf_avatar_url :: "string option"
  pf_created_at :: timestamptz
  pf_updated_at :: timestamptz

record Project =
  prj_id :: uuid
  prj_owner_id :: uuid
  prj_name :: string
  prj_description :: "string option"
  prj_xml :: string
  prj_is_public :: bool
  prj_last_edited_by :: "uuid option"
  prj_last_edited_at :: "timestamptz option"
  prj_created_at :: timestamptz
  prj_updated_at :: timestamptz

record Version =
  ver_id :: uuid
  ver_project_id :: uuid
  ver_name :: string
  ver_description :: "string option"
  ver_xml :: string
  ver_version_number :: int
  ver_created_by :: uuid
  ver_created_at :: timestamptz

record ProjectSharing =
  shr_id :: uuid
  shr_project_id :: uuid
  shr_user_id :: uuid
  shr_permission :: string
  shr_invited_by :: uuid
  shr_invited_at :: timestamptz
  shr_accepted_at :: "timestamptz option"

text \<open>
  The schema document enables row level security on all four tables in its initial
  migration, and defines the policies in sections of their own, which the migration only
  refers to. \<open>rls_policies\<close> says whether those \<open>CREATE POLICY\<close> statements have been
  run; no statement of the model changes it.
\<close>

record database =
  rls_policies :: bool
  profiles :: "Profile list"
  projects :: "Project list"
  versions :: "Version list"
  project_sharing :: "ProjectSharing list"

definition empty_database :: "bool \<Rightarrow> database" where
  "empty_database installed =
     \<lparr>rls_policies = installed, profiles = [], projects = [], versions = [],
      project_sharing = []\<rparr>"

text \<open>
  The errors a statement can raise; the string names the constraint or the table.
  \<open>infinite_recursion\<close> is PostgreSQL's \<open>infinite recursion detected in policy for
  relation\<close> (42P17).
\<close>

datatype sql_error =
    check_violation string
  | unique_violation string
  | foreign_key_violation string
  | insufficient_privilege string
  | numeric_value_out_of_range
  | infinite_recursion

subsection \<open>Expressions of the constraints\<close>

definition int4_min :: int where "int4_min = - 2147483648"
definition int4_max :: int where "int4_max = 2147483647"

definition in_int4 :: "int \<Rightarrow> bool" where
  "in_int4 n = (int4_min \<le> n \<and> n \<le> int4_max)"


text \<open>
  \<open>s LIKE p\<close>: \<open>%\<close> matches any run of characters, \<open>_\<close> any single character, every
  other character itself. (The patterns of the schema contain no escape character.)
\<close>

fun sql_like :: "string \<Rightarrow> string \<Rightarrow> bool" where
  "sql_like s [] = (s = [])"
| "sql_like s (p # ps) =
     (if p = CHR ''%'' then
        sql_like s ps \<or> (case s of [] \<Rightarrow> False | c # cs \<Rightarrow> sql_like cs (p # ps))
      else if p = CHR ''_'' then (case s of [] \<Rightarrow> False | c # cs \<Rightarrow> sql_like cs ps)
      else (case s of [] \<Rightarrow> False | c # cs \<Rightarrow> c = p \<and> sql_like cs ps))"

text \<open>\<open>TRIM(s)\<close> removes the spaces at both ends.\<close>

definition sql_trim :: "string \<Rightarrow> string" where
  "sql_trim s = rev (dropWhile (\<lambda>c. c = CHR '' '') (rev (dropWhile (\<lambda>c. c = CHR '' '') s)))"

definition dq :: char where "dq = CHR 0x22"

text \<open>The prefix that \<open>xml_valid_format\<close> asks for, \<open><?xml version="1.0"\<close>.\<close>

definition xml_prefix :: string where
  "xml_prefix = ''<?xml version='' @ [dq] @ ''1.0'' @ [dq]"

text \<open>\<open>CONSTRAINT xml_valid_format CHECK (xml LIKE '<?xml version="1.0"%')\<close>\<close>

definition xml_valid_format :: "string \<Rightarrow> bool" where
  "xml_valid_format x = sql_like x (xml_prefix @ ''%'')"

text \<open>\<open>CONSTRAINT name_not_empty CHECK (LENGTH(TRIM(name)) > 0)\<close>\<close>

definition name_not_empty :: "string \<Rightarrow> bool" where
  "name_not_empty n = (length (sql_trim n) > 0)"

text \<open>\<open>CONSTRAINT version_number_positive CHECK (version_number > 0)\<close>\<close>

definition version_number_positive :: "int \<Rightarrow> bool" where
  "version_number_positive n = (n > 0)"

text \<open>\<open>CONSTRAINT permission_valid CHECK (permission IN ('view', 'edit'))\<close>\<close>

definition permission_valid :: "string \<Rightarrow> bool" where
  "permission_valid p = (p = ''view'' \<or> p = ''edit'')"

text \<open>The \<open>DEFAULT\<close> of \<open>projects.xml\<close>, line by line as the schema writes it.\<close>

definition default_xml :: string where
  "default_xml =
     ''<?xml version='' @ [dq] @ ''1.0'' @ [dq] @ '' encoding='' @ [dq] @ ''UTF-8'' @ [dq]
       @ ''?>\<newline>''
     @ ''<xml>\<newline>''
     @ ''  <Diagram>\<newline>''
     @ ''    <ObjectMap>\<newline>''
     @ ''    </ObjectMap>\<newline>''
     @ ''    <SiteMap>\<newline>''
     @ ''    </SiteMap>\<newline>''
     @ ''  </Diagram>\<newline>''
     @ ''</xml>''"

subsection \<open>Row level security\<close>

text \<open>
  A statement runs as a role at the instant \<open>NOW()\<close>: as the \<open>authenticated\<close> role of
  a signed-in user, whose id is \<open>auth.uid()\<close>, or as the role that owns the tables. Row
  level security does not bind the owner of a table (no table is set to \<open>FORCE\<close> it);
  the \<open>SECURITY DEFINER\<close> functions and the foreign-key actions run as the owner.
\<close>

datatype principal = authenticated uuid | table_owner

record session =
  acts_as :: principal
  now :: timestamptz

text \<open>
  One row under the policies of one command. The owner passes. A signed-in user passes
  when the policies are installed and one of the command's permissive policies holds
  (they are joined by \<open>OR\<close>); with no policy for the command every row is denied.
\<close>

definition permits :: "database \<Rightarrow> principal \<Rightarrow> (uuid \<Rightarrow> bool) \<Rightarrow> bool" where
  "permits db who policy =
     (case who of table_owner \<Rightarrow> True | authenticated uid \<Rightarrow> rls_policies db \<and> policy uid)"

text \<open>
  The subqueries of the policies. A subquery is itself under the \<open>SELECT\<close> policies
  of the table it reads; each asks for rows that those policies would show to the user
  (the projects the user owns, the sharing rows of the user), so it is evaluated on the
  table. Whether the policies of that table can be expanded at all is decided apart,
  below, before any row is read.

  \<open>pid IN (SELECT id FROM projects WHERE owner_id = auth.uid())\<close>
\<close>

definition owns_project :: "database \<Rightarrow> uuid \<Rightarrow> uuid \<Rightarrow> bool" where
  "owns_project db uid pid =
     list_ex (\<lambda>r. prj_id r = pid \<and> prj_owner_id r = uid) (projects db)"

text \<open>
  \<open>pid IN (SELECT project_id FROM project_sharing WHERE user_id = auth.uid()
  AND accepted_at IS NOT NULL)\<close>
\<close>

definition shared_with :: "database \<Rightarrow> uuid \<Rightarrow> uuid \<Rightarrow> bool" where
  "shared_with db uid pid =
     list_ex (\<lambda>r. shr_project_id r = pid \<and> shr_user_id r = uid \<and> shr_accepted_at r \<noteq> None)
             (project_sharing db)"

text \<open>
  \<open>pid IN (SELECT project_id FROM project_sharing WHERE user_id = auth.uid()
  AND permission = 'edit' AND accepted_at IS NOT NULL)\<close>
\<close>

definition shared_for_edit :: "database \<Rightarrow> uuid \<Rightarrow> uuid \<Rightarrow> bool" where
  "shared_for_edit db uid pid =
     list_ex (\<lambda>r. shr_project_id r = pid \<and> shr_user_id r = uid
                  \<and> shr_permission r = ''edit'' \<and> shr_accepted_at r \<noteq> None)
             (project_sharing db)"

text \<open>The policies of \<open>profiles\<close>: everyone may read, a user updates the own profile.\<close>

definition profiles_select_policy :: "database \<Rightarrow> principal \<Rightarrow> Profile \<Rightarrow> bool" where
  "profiles_select_policy db who r = permits db who (\<lambda>uid. True)"

definition profiles_update_policy :: "database \<Rightarrow> principal \<Rightarrow> Profile \<Rightarrow> bool" where
  "profiles_update_policy db who r = permits db who (\<lambda>uid. uid = pf_id r)"

text \<open>The policies of \<open>projects\<close>.\<close>

definition projects_select_policy :: "database \<Rightarrow> principal \<Rightarrow> Project \<Rightarrow> bool" where
  "projects_select_policy db who r =
     permits db who (\<lambda>uid. prj_owner_id r = uid \<or> shared_with db uid (prj_id r))"

definition projects_insert_policy :: "database \<Rightarrow> principal \<Rightarrow> Project \<Rightarrow> bool" where
  "projects_insert_policy db who r = permits db who (\<lambda>uid. prj_owner_id r = uid)"

definition projects_update_policy :: "database \<Rightarrow> principal \<Rightarrow> Project \<Rightarrow> bool" where
  "projects_update_policy db who r =
     permits db who (\<lambda>uid. prj_owner_id r = uid \<or> shared_for_edit db uid (prj_id r))"

definition projects_delete_policy :: "database \<Rightarrow> principal \<Rightarrow> Project \<Rightarrow> bool" where
  "projects_delete_policy db who r = permits db who (\<lambda>uid. prj_owner_id r = uid)"

text \<open>
  The policies of \<open>versions\<close>.
  \<open>-- Versions cannot be updated or deleted (immutable): no UPDATE or DELETE policies\<close>
\<close>

definition versions_select_policy :: "database \<Rightarrow> principal \<Rightarrow> Version \<Rightarrow> bool" where
  "versions_select_policy db who r =
     permits db who (\<lambda>uid. owns_project db uid (ver_project_id r)
                            \<or> shared_with db uid (ver_project_id r))"

definition versions_insert_policy :: "database \<Rightarrow> principal \<Rightarrow> Version \<Rightarrow> bool" where
  "versions_insert_policy db who r =
     permits db who (\<lambda>uid. owns_project db uid (ver_project_id r)
                            \<or> shared_for_edit db uid (ver_project_id r))"

definition versions_update_policy :: "database \<Rightarrow> principal \<Rightarrow> Version \<Rightarrow> bool" where
  "versions_update_policy db who r = permits db who (\<lambda>uid. False)"

definition versions_delete_policy :: "database \<Rightarrow> principal \<Rightarrow> Version \<Rightarrow> bool" where
  "versions_delete_policy db who r = permits db who (\<lambda>uid. False)"

text \<open>The policies of \<open>project_sharing\<close>.\<close>

definition sharing_select_policy :: "database \<Rightarrow> principal \<Rightarrow> ProjectSharing \<Rightarrow> bool" where
  "sharing_select_policy db who r =
     permits db who (\<lambda>uid. owns_project db uid (shr_project_id r) \<or> shr_user_id r = uid)"

definition sharing_insert_policy :: "database \<Rightarrow> principal \<Rightarrow> ProjectSharing \<Rightarrow> bool" where
  "sharing_insert_policy db who r =
     permits db who (\<lambda>uid. owns_project db uid (shr_project_id r))"

definition sharing_update_policy :: "database \<Rightarrow> principal \<Rightarrow> ProjectSharing \<Rightarrow> bool" where
  "sharing_update_policy db who r =
     permits db who (\<lambda>uid. owns_project db uid (shr_project_id r) \<or> shr_user_id r = uid)"

definition sharing_delete_policy :: "database \<Rightarrow> principal \<Rightarrow> ProjectSharing \<Rightarrow> bool" where
  "sharing_delete_policy db who r =
     permits db who (\<lambda>uid. owns_project db uid (shr_project_id r) \<or> shr_user_id r = uid)"

subsection \<open>Policies that query each other\<close>

text \<open>
  A policy that holds a subquery makes the user read the table of the subquery, under
  that table's own \<open>SELECT\<close> policies. PostgreSQL expands these policies when it
  rewrites the statement, before any row is looked at, and raises \<open>infinite recursion
  detected in policy\<close> when the expansion comes back to a table whose policies it is
  expanding. \<open>policy_subqueries t c\<close> lists the tables that the policies of \<open>t\<close> for
  the command \<open>c\<close> query.
\<close>

datatype relation = on_profiles | on_projects | on_versions | on_project_sharing

datatype command = Select | Insert | Update | Delete

fun policy_subqueries :: "relation \<Rightarrow> command \<Rightarrow> relation list" where
  "policy_subqueries on_profiles c = []"
| "policy_subqueries on_projects Select = [on_project_sharing]"
| "policy_subqueries on_projects Insert = []"
| "policy_subqueries on_projects Update = [on_project_sharing]"
| "policy_subqueries on_projects Delete = []"
| "policy_subqueries on_versions Select = [on_projects, on_project_sharing]"
| "policy_subqueries on_versions Insert = [on_projects, on_project_sharing]"
| "policy_subqueries on_versions Update = []"
| "policy_subqueries on_versions Delete = []"
| "policy_subqueries on_project_sharing c = [on_projects]"

text \<open>
  \<open>expands fuel active t\<close>: reading \<open>t\<close> while the policies of the tables \<open>active\<close>
  are being expanded goes through. It does not when \<open>t\<close> is one of them. The expansion
  never nests deeper than there are tables, so a fuel of four decides it.
\<close>

fun expands :: "nat \<Rightarrow> relation list \<Rightarrow> relation \<Rightarrow> bool" where
  "expands 0 active t = False"
| "expands (Suc fuel) active t =
     (t \<notin> set active \<and> list_all (expands fuel (t # active)) (policy_subqueries t Select))"

text \<open>
  The tables a statement on \<open>t\<close> reads through policies: those of the policies of its
  command, and for an \<open>UPDATE\<close> or \<open>DELETE\<close> with a \<open>WHERE\<close> clause also those of the
  \<open>SELECT\<close> policies of \<open>t\<close>, which apply to the rows the statement looks at.
\<close>

definition policy_recursion :: "relation \<Rightarrow> command \<Rightarrow> bool" where
  "policy_recursion t c =
     (\<not> list_all (expands 4 [t])
          (policy_subqueries t c
           @ (if c = Update \<or> c = Delete then policy_subqueries t Select else [])))"

definition raises_recursion :: "database \<Rightarrow> principal \<Rightarrow> relation \<Rightarrow> command \<Rightarrow> bool" where
  "raises_recursion db who t c =
     (case who of table_owner \<Rightarrow> False
      | authenticated uid \<Rightarrow> rls_policies db \<and> policy_recursion t c)"

subsection \<open>Database functions\<close>





text \<open>
  \<open>user_can_edit_project(p_user_id, p_project_id)\<close>: the disjunction of the two
  \<open>EXISTS\<close> subqueries. The function is \<open>SECURITY DEFINER\<close>, so it reads the whole tables.
\<close>

definition user_can_edit_project :: "database \<Rightarrow> uuid \<Rightarrow> uuid \<Rightarrow> bool" where
  "user_can_edit_project db p_user_id p_project_id =
     (list_ex (\<lambda>r. prj_id r = p_project_id \<and> prj_owner_id r = p_user_id) (projects db)
      \<or> list_ex (\<lambda>r. shr_project_id r = p_project_id
                     \<and> shr_user_id r = p_user_id
                     \<and> shr_permission r = ''edit''
                     \<and> shr_accepted_at r \<noteq> None) (project_sharing db))"

subsection \<open>Statements\<close>

text \<open>
  The statements are those of the example queries of the schema document. An \<open>INSERT\<close>
  is sent without the \<open>RETURNING\<close> clause of the examples, which would put the new row
  under the \<open>SELECT\<close> policies as well. Each statement first meets the expansion of the policies it goes through,
  then its rows: an \<open>UPDATE\<close> or \<open>DELETE\<close> touches the rows with the given id that the
  \<open>SELECT\<close> policies show and the policy of the command lets through, and skips the
  others silently; a new row that the policy of an \<open>INSERT\<close> or \<open>UPDATE\<close> rejects
  raises. Constraints bind every role.
\<close>

definition profile_exists :: "database \<Rightarrow> uuid \<Rightarrow> bool" where
  "profile_exists db u = (u \<in> set (map pf_id (profiles db)))"

definition project_exists :: "database \<Rightarrow> uuid \<Rightarrow> bool" where
  "project_exists db p = (p \<in> set (map prj_id (projects db)))"

text \<open>
  A new row in \<open>auth.users\<close> fires \<open>handle_new_user\<close>, which inserts the profile as
  the owner of the table.
\<close>

definition sign_up :: "session \<Rightarrow> uuid \<Rightarrow> string \<Rightarrow> string option \<Rightarrow> database
    \<Rightarrow> sql_error + database" where
  "sign_up s new_id new_email new_full_name db =
     (if new_id \<in> set (map pf_id (profiles db)) then Inl (unique_violation ''profiles_pkey'')
      else if new_email \<in> set (map pf_email (profiles db))
        then Inl (unique_violation ''profiles_email_key'')
      else Inr (db\<lparr>profiles := profiles db @
             [\<lparr>pf_id = new_id, pf_email = new_email, pf_full_name = new_full_name,
               pf_avatar_url = None, pf_created_at = now s, pf_updated_at = now s\<rparr>]\<rparr>))"

text \<open>
  \<open>UPDATE profiles SET ... WHERE id = target\<close>. The \<open>SET\<close> clause is the function \<open>f\<close>;
  the trigger \<open>handle_updated_at\<close> then stamps the new row.
\<close>

definition update_profile :: "session \<Rightarrow> uuid \<Rightarrow> (Profile \<Rightarrow> Profile) \<Rightarrow> database
    \<Rightarrow> sql_error + database" where
  "update_profile s target f db =
     (let hit = (\<lambda>r. pf_id r = target \<and> profiles_select_policy db (acts_as s) r
                      \<and> profiles_update_policy db (acts_as s) r);
          new = (\<lambda>r. (f r)\<lparr>pf_updated_at := now s\<rparr>);
          rows = map (\<lambda>r. if hit r then new r else r) (profiles db)
      in if raises_recursion db (acts_as s) on_profiles Update then Inl infinite_recursion
         else if list_ex (\<lambda>r. hit r \<and> \<not> profiles_update_policy db (acts_as s) (new r))
                         (profiles db)
           then Inl (insufficient_privilege ''profiles'')
         else if \<not> distinct (map pf_id rows) then Inl (unique_violation ''profiles_pkey'')
         else if \<not> distinct (map pf_email rows) then Inl (unique_violation ''profiles_email_key'')
         else Inr (db\<lparr>profiles := rows\<rparr>))"

text \<open>
  \<open>INSERT INTO projects\<close>. The row carries every column but \<open>xml\<close>, which is given
  apart: \<open>None\<close> leaves it to the column's \<open>DEFAULT\<close>.
\<close>

definition insert_project :: "session \<Rightarrow> Project \<Rightarrow> string option \<Rightarrow> database
    \<Rightarrow> sql_error + database" where
  "insert_project s r x db =
     (let row = r\<lparr>prj_xml := (case x of None \<Rightarrow> default_xml | Some given \<Rightarrow> given)\<rparr>
      in if raises_recursion db (acts_as s) on_projects Insert then Inl infinite_recursion
         else if \<not> projects_insert_policy db (acts_as s) row
           then Inl (insufficient_privilege ''projects'')
         else if \<not> name_not_empty (prj_name row) then Inl (check_violation ''name_not_empty'')
         else if \<not> xml_valid_format (prj_xml row)
           then Inl (check_violation ''xml_valid_format'')
         else if project_exists db (prj_id row) then Inl (unique_violation ''projects_pkey'')
         else if \<not> profile_exists db (prj_owner_id row)
           then Inl (foreign_key_violation ''projects_owner_id_fkey'')
         else if (case prj_last_edited_by row of None \<Rightarrow> False
                    | Some u \<Rightarrow> \<not> profile_exists db u)
           then Inl (foreign_key_violation ''projects_last_edited_by_fkey'')
         else Inr (db\<lparr>projects := projects db @ [row]\<rparr>))"

text \<open>
  \<open>UPDATE projects SET ... WHERE id = target\<close>, with the trigger \<open>on_project_updated\<close>.
  A changed \<open>id\<close> that versions or sharing rows still reference is refused by their
  foreign keys (\<open>ON UPDATE\<close> is not declared, so \<open>NO ACTION\<close>).
\<close>

definition update_project :: "session \<Rightarrow> uuid \<Rightarrow> (Project \<Rightarrow> Project) \<Rightarrow> database
    \<Rightarrow> sql_error + database" where
  "update_project s target f db =
     (let hit = (\<lambda>r. prj_id r = target \<and> projects_select_policy db (acts_as s) r
                      \<and> projects_update_policy db (acts_as s) r);
          new = (\<lambda>r. (f r)\<lparr>prj_updated_at := now s\<rparr>);
          rows = map (\<lambda>r. if hit r then new r else r) (projects db)
      in if raises_recursion db (acts_as s) on_projects Update then Inl infinite_recursion
         else if list_ex (\<lambda>r. hit r \<and> \<not> projects_update_policy db (acts_as s) (new r))
                         (projects db)
           then Inl (insufficient_privilege ''projects'')
         else if list_ex (\<lambda>r. hit r \<and> \<not> name_not_empty (prj_name (new r))) (projects db)
           then Inl (check_violation ''name_not_empty'')
         else if list_ex (\<lambda>r. hit r \<and> \<not> xml_valid_format (prj_xml (new r))) (projects db)
           then Inl (check_violation ''xml_valid_format'')
         else if \<not> distinct (map prj_id rows) then Inl (unique_violation ''projects_pkey'')
         else if list_ex (\<lambda>r. hit r \<and> \<not> profile_exists db (prj_owner_id (new r))) (projects db)
           then Inl (foreign_key_violation ''projects_owner_id_fkey'')
         else if list_ex (\<lambda>r. hit r \<and> (case prj_last_edited_by (new r) of None \<Rightarrow> False
                                           | Some u \<Rightarrow> \<not> profile_exists db u)) (projects db)
           then Inl (foreign_key_violation ''projects_last_edited_by_fkey'')
         else if list_ex (\<lambda>r. hit r \<and> prj_id (new r) \<noteq> prj_id r
                              \<and> prj_id r \<in> set (map ver_project_id (versions db))) (projects db)
           then Inl (foreign_key_violation ''versions_project_id_fkey'')
         else if list_ex (\<lambda>r. hit r \<and> prj_id (new r) \<noteq> prj_id r
                              \<and> prj_id r \<in> set (map shr_project_id (project_sharing db)))
                         (projects db)
           then Inl (foreign_key_violation ''project_sharing_project_id_fkey'')
         else Inr (db\<lparr>projects := rows\<rparr>))"

text \<open>
  \<open>DELETE FROM projects WHERE id = target\<close>. The versions and the sharing rows of a
  deleted project go with it (\<open>ON DELETE CASCADE\<close>); the cascade runs as the owner of
  the tables, whatever the policies of those tables.
\<close>

definition delete_project :: "session \<Rightarrow> uuid \<Rightarrow> database \<Rightarrow> sql_error + database" where
  "delete_project s target db =
     (let hit = (\<lambda>r. prj_id r = target \<and> projects_select_policy db (acts_as s) r
                      \<and> projects_delete_policy db (acts_as s) r);
          gone = map prj_id (filter hit (projects db))
      in if raises_recursion db (acts_as s) on_projects Delete then Inl infinite_recursion
         else Inr (db\<lparr>projects := filter (\<lambda>r. \<not> hit r) (projects db),
                 versions := filter (\<lambda>v. ver_project_id v \<notin> set gone) (versions db),
                 project_sharing :=
                   filter (\<lambda>r. shr_project_id r \<notin> set gone) (project_sharing db)\<rparr>))"

text \<open>
  \<open>INSERT INTO versions\<close>. A \<open>version_number\<close> outside \<open>INTEGER\<close> is refused when the
  value is converted, before the policy and the constraints are looked at.
\<close>

definition insert_version :: "session \<Rightarrow> Version \<Rightarrow> database \<Rightarrow> sql_error + database" where
  "insert_version s r db =
     (if raises_recursion db (acts_as s) on_versions Insert then Inl infinite_recursion
      else if \<not> in_int4 (ver_version_number r) then Inl numeric_value_out_of_range
      else if \<not> versions_insert_policy db (acts_as s) r
        then Inl (insufficient_privilege ''versions'')
      else if \<not> name_not_empty (ver_name r) then Inl (check_violation ''name_not_empty'')
      else if \<not> xml_valid_format (ver_xml r) then Inl (check_violation ''xml_valid_format'')
      else if \<not> version_number_positive (ver_version_number r)
        then Inl (check_violation ''version_number_positive'')
      else if ver_id r \<in> set (map ver_id (versions db))
        then Inl (unique_violation ''versions_pkey'')
      else if list_ex (\<lambda>v. ver_project_id v = ver_project_id r
                           \<and> ver_version_number v = ver_version_number r) (versions db)
        then Inl (unique_violation ''unique_version_number'')
      else if \<not> project_exists db (ver_project_id r)
        then Inl (foreign_key_violation ''versions_project_id_fkey'')
      else if \<not> profile_exists db (ver_created_by r)
        then Inl (foreign_key_violation ''versions_created_by_fkey'')
      else Inr (db\<lparr>versions := versions db @ [r]\<rparr>))"

text \<open>
  \<open>UPDATE versions SET ... WHERE id = target\<close> and \<open>DELETE FROM versions WHERE id =
  target\<close>: the statements are legal SQL, and touch the rows their policy lets through.
\<close>

definition update_version :: "session \<Rightarrow> uuid \<Rightarrow> (Version \<Rightarrow> Version) \<Rightarrow> database
    \<Rightarrow> sql_error + database" where
  "update_version s target f db =
     (let hit = (\<lambda>r. ver_id r = target \<and> versions_select_policy db (acts_as s) r
                      \<and> versions_update_policy db (acts_as s) r);
          rows = map (\<lambda>r. if hit r then f r else r) (versions db)
      in if raises_recursion db (acts_as s) on_versions Update then Inl infinite_recursion
         else if list_ex (\<lambda>r. hit r \<and> \<not> in_int4 (ver_version_number (f r))) (versions db)
           then Inl numeric_value_out_of_range
         else if list_ex (\<lambda>r. hit r \<and> \<not> versions_update_policy db (acts_as s) (f r))
                         (versions db)
           then Inl (insufficient_privilege ''versions'')
         else if list_ex (\<lambda>r. hit r \<and> \<not> name_not_empty (ver_name (f r))) (versions db)
           then Inl (check_violation ''name_not_empty'')
         else if list_ex (\<lambda>r. hit r \<and> \<not> xml_valid_format (ver_xml (f r))) (versions db)
           then Inl (check_violation ''xml_valid_format'')
         else if list_ex (\<lambda>r. hit r \<and> \<not> version_number_positive (ver_version_number (f r)))
                         (versions db)
           then Inl (check_violation ''version_number_positive'')
         else if \<not> distinct (map ver_id rows) then Inl (unique_violation ''versions_pkey'')
         else if \<not> distinct (map (\<lambda>v. (ver_project_id v, ver_version_number v)) rows)
           then Inl (unique_violation ''unique_version_number'')
         else if list_ex (\<lambda>r. hit r \<and> \<not> project_exists db (ver_project_id (f r))) (versions db)
           then Inl (foreign_key_violation ''versions_project_id_fkey'')
         else if list_ex (\<lambda>r. hit r \<and> \<not> profile_exists db (ver_created_by (f r))) (versions db)
           then Inl (foreign_key_violation ''versions_created_by_fkey'')
         else Inr (db\<lparr>versions := rows\<rparr>))"

definition delete_version :: "session \<Rightarrow> uuid \<Rightarrow> database \<Rightarrow> sql_error + database" where
  "delete_version s target db =
     (if raises_recursion db (acts_as s) on_versions Delete then Inl infinite_recursion
      else Inr (db\<lparr>versions :=
            filter (\<lambda>r. \<not> (ver_id r = target \<and> versions_select_policy db (acts_as s) r
                             \<and> versions_delete_policy db (acts_as s) r))
                   (versions db)\<rparr>))"

text \<open>
  \<open>INSERT\<close>, \<open>UPDATE ... WHERE id = target\<close> and \<open>DELETE ... WHERE id = target\<close> on
  \<open>project_sharing\<close>, with the constraints of the initial migration.
\<close>

definition insert_sharing :: "session \<Rightarrow> ProjectSharing \<Rightarrow> database \<Rightarrow> sql_error + database"
  where
  "insert_sharing s r db =
     (if raises_recursion db (acts_as s) on_project_sharing Insert then Inl infinite_recursion
      else if \<not> sharing_insert_policy db (acts_as s) r
        then Inl (insufficient_privilege ''project_sharing'')
      else if \<not> permission_valid (shr_permission r)
        then Inl (check_violation ''permission_valid'')
      else if shr_id r \<in> set (map shr_id (project_sharing db))
        then Inl (unique_violation ''project_sharing_pkey'')
      else if list_ex (\<lambda>x. shr_project_id x = shr_project_id r \<and> shr_user_id x = shr_user_id r)
                      (project_sharing db)
        then Inl (unique_violation ''unique_user_project'')
      else if \<not> project_exists db (shr_project_id r)
        then Inl (foreign_key_violation ''project_sharing_project_id_fkey'')
      else if \<not> profile_exists db (shr_user_id r)
        then Inl (foreign_key_violation ''project_sharing_user_id_fkey'')
      else if \<not> profile_exists db (shr_invited_by r)
        then Inl (foreign_key_violation ''project_sharing_invited_by_fkey'')
      else Inr (db\<lparr>project_sharing := project_sharing db @ [r]\<rparr>))"

definition update_sharing :: "session \<Rightarrow> uuid \<Rightarrow> (ProjectSharing \<Rightarrow> ProjectSharing) \<Rightarrow> database
    \<Rightarrow> sql_error + database" where
  "update_sharing s target f db =
     (let hit = (\<lambda>r. shr_id r = target \<and> sharing_select_policy db (acts_as s) r
                      \<and> sharing_update_policy db (acts_as s) r);
          rows = map (\<lambda>r. if hit r then f r else r) (project_sharing db)
      in if raises_recursion db (acts_as s) on_project_sharing Update
           then Inl infinite_recursion
         else if list_ex (\<lambda>r. hit r \<and> \<not> sharing_update_policy db (acts_as s) (f r))
                    (project_sharing db)
           then Inl (insufficient_privilege ''project_sharing'')
         else if list_ex (\<lambda>r. hit r \<and> \<not> permission_valid (shr_permission (f r)))
                         (project_sharing db)
           then Inl (check_violation ''permission_valid'')
         else if \<not> distinct (map shr_id rows)
           then Inl (unique_violation ''project_sharing_pkey'')
         else if \<not> distinct (map (\<lambda>r. (shr_project_id r, shr_user_id r)) rows)
           then Inl (unique_violation ''unique_user_project'')
         else if list_ex (\<lambda>r. hit r \<and> \<not> project_exists db (shr_project_id (f r)))
                         (project_sharing db)
           then Inl (foreign_key_violation ''project_sharing_project_id_fkey'')
         else if list_ex (\<lambda>r. hit r \<and> \<not> profile_exists db (shr_user_id (f r)))
                         (project_sharing db)
           then Inl (foreign_key_violation ''project_sharing_user_id_fkey'')
         else if list_ex (\<lambda>r. hit r \<and> \<not> profile_exists db (shr_invited_by (f r)))
                         (project_sharing db)
           then Inl (foreign_key_violation ''project_sharing_invited_by_fkey'')
         else Inr (db\<lparr>project_sharing := rows\<rparr>))"

definition delete_sharing :: "session \<Rightarrow> uuid \<Rightarrow> database \<Rightarrow> sql_error + database" where
  "delete_sharing s target db =
     (if raises_recursion db (acts_as s) on_project_sharing Delete then Inl infinite_recursion
      else Inr (db\<lparr>project_sharing :=
            filter (\<lambda>r. \<not> (shr_id r = target \<and> sharing_select_policy db (acts_as s) r
                             \<and> sharing_delete_policy db (acts_as s) r))
                   (project_sharing db)\<rparr>))"

text \<open>
  The statements, each sent as the role of its session. A statement that raises leaves
  the database as it was.
\<close>

datatype statement =
    SignUp uuid string "string option"
  | UpdateProfile uuid "Profile \<Rightarrow> Profile"
  | InsertProject Project "string option"
  | UpdateProject uuid "Project \<Rightarrow> Project"
  | DeleteProject uuid
  | InsertVersion Version
  | UpdateVersion uuid "Version \<Rightarrow> Version"
  | DeleteVersion uuid
  | InsertSharing ProjectSharing
  | UpdateSharing uuid "ProjectSharing \<Rightarrow> ProjectSharing"
  | DeleteSharing uuid

fun exec :: "session \<Rightarrow> statement \<Rightarrow> database \<Rightarrow> sql_error + database" where
  "exec s (SignUp i e n) db = sign_up s i e n db"
| "exec s (UpdateProfile t f) db = update_profile s t f db"
| "exec s (InsertProject r x) db = insert_project s r x db"
| "exec s (UpdateProject t f) db = update_project s t f db"
| "exec s (DeleteProject t) db = delete_project s t db"
| "exec s (InsertVersion r) db = insert_version s r db"
| "exec s (UpdateVersion t f) db = update_version s t f db"
| "exec s (DeleteVersion t) db = delete_version s t db"
| "exec s (InsertSharing r) db = insert_sharing s r db"
| "exec s (UpdateSharing t f) db = update_sharing s t f db"
| "exec s (DeleteSharing t) db = delete_sharing s t db"

text \<open>
  The databases that the statements build from the freshly migrated, empty one, with
  the policies installed or not.
\<close>

inductive reachable :: "database \<Rightarrow> bool" where
  reachable_empty: "reachable (empty_database installed)"
| reachable_exec: "reachable db \<Longrightarrow> exec s st db = Inr db' \<Longrightarrow> reachable db'"

subsection \<open>A small database\<close>


definition owner_session :: session where
  "owner_session = \<lparr>acts_as = table_owner, now = 0\<rparr>"

definition alice_profile :: Profile where
  "alice_profile = \<lparr>pf_id = ''alice'', pf_email = ''alice@example.org'', pf_full_name = None,
     pf_avatar_url = None, pf_created_at = 0, pf_updated_at = 0\<rparr>"

definition demo_project :: Project where
  "demo_project = \<lparr>prj_id = ''p1'', prj_owner_id = ''alice'', prj_name = ''Demo'',
     prj_description = None, prj_xml = default_xml, prj_is_public = False,
     prj_last_edited_by = None, prj_last_edited_at = None, prj_created_at = 0,
     prj_updated_at = 0\<rparr>"

definition demo_version :: "int \<Rightarrow> Version" where
  "demo_version n = \<lparr>ver_id = ''v1'', ver_project_id = ''p1'', ver_name = ''Initial Design'',
     ver_description = None, ver_xml = default_xml, ver_version_number = n,
     ver_created_by = ''alice'', ver_created_at = 0\<rparr>"

definition demo_db :: "bool \<Rightarrow> int \<Rightarrow> database" where
  "demo_db installed n = \<lparr>rls_policies = installed, profiles = [alice_profile],
     projects = [demo_project], versions = [demo_version n], project_sharing = []\<rparr>"

text \<open>
  Project \<open>p1\<close> of Alice shared three ways: Bob has accepted an \<open>edit\<close> share, Carol's
  \<open>edit\<close> share is pending, and Dave has accepted a \<open>view\<close> share.
\<close>

definition demo_share :: "uuid \<Rightarrow> uuid \<Rightarrow> string \<Rightarrow> timestamptz option \<Rightarrow> ProjectSharing" where
  "demo_share i u perm acc = \<lparr>shr_id = i, shr_project_id = ''p1'', shr_user_id = u,
     shr_permission = perm, shr_invited_by = ''alice'', shr_invited_at = 1,
     shr_accepted_at = acc\<rparr>"

definition shared_db :: database where
  "shared_db = \<lparr>rls_policies = True, profiles = [alice_profile], projects = [demo_project],
     versions = [],
     project_sharing = [demo_share ''s1'' ''bob'' ''edit'' (Some 2),
                        demo_share ''s2'' ''carol'' ''edit'' None,
                        demo_share ''s3'' ''dave'' ''view'' (Some 3)]\<rparr>"


text \<open>A second project of Alice, whose document is left to the column's default.\<close>

definition second_project :: Project where
  "second_project = demo_project\<lparr>prj_id := ''p2'', prj_xml := []\<rparr>"

section \<open>The diagram document engine\<close>

subsection \<open>The tree (types/diagram.ts, src/unnamed/part\_000)\<close>

text \<open>
  \<open>DiagramItem\<close>, \<open>ParsedData\<close> and \<open>Registry\<close> as the repository declares them. The
  fields \<open>id\<close> and \<open>type\<close> are \<open>item_id\<close> and \<open>item_type\<close> here. An optional field is an
  \<open>option\<close>; \<open>title\<close> is a plain string in the source, so an item without a title of
  its own carries the empty one. \<open>linkTo\<close> is the attribute's text, a comma-separated
  list of ids. The registry is the object \<open>{ [id]: DiagramItem }\<close>, kept as the list of
  its entries in the order they were added.
\<close>

datatype ItemType = Object | Page | Info | Function | Case

datatype DiagramItem = DiagramItem
  (item_id: string) (item_type: ItemType) (title: string) (nestingLevel: nat)
  (instanceOf: "string option") (linkTo: "string option")
  (children: "DiagramItem list") (columnIndex: "nat option")

record ParsedData =
  objectMap :: "DiagramItem list list"
  siteMap :: "DiagramItem list list"

type_synonym Registry = "(string \<times> DiagramItem) list"

text \<open>\<open>Object\<close> and \<open>Page\<close> are the root-level kinds (L1I), the others are nested (NL1I).\<close>

definition is_L1I :: "ItemType \<Rightarrow> bool" where
  "is_L1I ty = (ty = Object \<or> ty = Page)"

text \<open>The items of a tree in document order: an item, then its descendants.\<close>

fun items_of :: "DiagramItem \<Rightarrow> DiagramItem list" where
  "items_of (DiagramItem i ty t lvl inst lk kids col) =
     DiagramItem i ty t lvl inst lk kids col # concat (map items_of kids)"

definition map_items :: "DiagramItem list list \<Rightarrow> DiagramItem list" where
  "map_items cols = concat (map items_of (concat cols))"

definition all_items :: "ParsedData \<Rightarrow> DiagramItem list" where
  "all_items d = map_items (objectMap d) @ map_items (siteMap d)"

text \<open>
  Modelled from the spec: the ids an item links to, which the sources do not compute
  (\<open>linkTo\<close> is declared as a string there, and a document writes
  \<open>linkTo="id1,id2"\<close>). The attribute is cut at its commas.
\<close>

fun split_on :: "char \<Rightarrow> string \<Rightarrow> string list" where
  "split_on c [] = [[]]"
| "split_on c (x # xs) =
     (if x = c then [] # split_on c xs
      else (case split_on c xs of [] \<Rightarrow> [[x]] | w # ws \<Rightarrow> (x # w) # ws))"

text \<open>
  Modelled from the spec: a list of ids read as the data model's ordered set of ids,
  each id where it first occurs.
\<close>

fun first_occurrences :: "string list \<Rightarrow> string list" where
  "first_occurrences [] = []"
| "first_occurrences (i # rest) = i # filter (\<lambda>j. j \<noteq> i) (first_occurrences rest)"

text \<open>
  Modelled from the spec: the links of an item, the ordered set of the ids that its
  \<open>linkTo\<close> names. No attribute, or an empty one, is no link.
\<close>

definition link_ids :: "DiagramItem \<Rightarrow> string list" where
  "link_ids x =
     (case linkTo x of
        None \<Rightarrow> []
      | Some s \<Rightarrow> if s = [] then [] else first_occurrences (split_on CHR '','' s))"

subsection \<open>Registry\<close>

text \<open>
  Modelled from the spec: the Registry's \<open>build\<close> and \<open>lookup\<close>, whose code
  (\<open>lib/xml/parser.ts\<close>, to be extracted from the prototype) is not in the repository's
  sources. \<open>build(tree)\<close> registers every item under its id, in document order, and fails
  the whole build at the first id that is already registered; \<open>lookup(id)\<close> is the item
  or nothing.
\<close>

datatype ParseError =
    MalformedMarkup string
  | DuplicateId string
  | MissingRequiredAttribute string
  | InvalidNesting string
  | DanglingReference string

fun register :: "DiagramItem list \<Rightarrow> Registry \<Rightarrow> ParseError + Registry" where
  "register [] reg = Inr reg"
| "register (x # xs) reg =
     (if map_of reg (item_id x) \<noteq> None then Inl (DuplicateId (item_id x))
      else register xs (reg @ [(item_id x, x)]))"

definition build :: "ParsedData \<Rightarrow> ParseError + Registry" where
  "build d = register (all_items d) []"

definition lookup :: "Registry \<Rightarrow> string \<Rightarrow> DiagramItem option" where
  "lookup reg i = map_of reg i"

text \<open>
  Modelled from the spec: effective title resolution, which is not in the sources. An
  instance's displayed title is read from its \<open>instanceOf\<close> target when it is asked
  for; any other item displays its own title.
\<close>

definition effective_title :: "Registry \<Rightarrow> DiagramItem \<Rightarrow> string" where
  "effective_title reg x =
     (case instanceOf x of
        None \<Rightarrow> title x
      | Some t \<Rightarrow> (case lookup reg t of None \<Rightarrow> [] | Some y \<Rightarrow> title y))"

subsection \<open>Parser\<close>

text \<open>
  Modelled from the spec: the document the parser walks. The parser's code
  (\<open>parseXML\<close>, \<open>parseColumns\<close>, \<open>parseItem\<close>) is not in the sources, and the spec leaves
  reading the markup (tags, quoting, well-formed nesting, its validation rule 1) to the
  text format; an element here is what that reading yields: a tag, the attributes in
  their order, and the child elements. A text that is not well-formed yields no element
  and is the error \<open>MalformedMarkup\<close>.
\<close>

datatype xml_node = Element (tag: string) (attributes: "(string \<times> string) list")
  (child_nodes: "xml_node list")

datatype DiagramMap = InObjectMap | InSiteMap

definition type_of_tag :: "string \<Rightarrow> ItemType option" where
  "type_of_tag t =
     (if t = ''Object'' then Some Object
      else if t = ''Page'' then Some Page
      else if t = ''Info'' then Some Info
      else if t = ''Function'' then Some Function
      else if t = ''Case'' then Some Case
      else None)"

definition root_type :: "DiagramMap \<Rightarrow> ItemType" where
  "root_type m = (case m of InObjectMap \<Rightarrow> Object | InSiteMap \<Rightarrow> Page)"

text \<open>
  Modelled from the spec: \<open>parseItem\<close>, which is not in the sources. It builds the item
  of one element at nesting level \<open>lvl\<close> of column \<open>col\<close> and validates, in the spec's
  numbering: every item has an \<open>id\<close>; the roots of the Object Map are \<open>Object\<close>s, those
  of the Site Map \<open>Page\<close>s, and nested items are \<open>Info\<close>, \<open>Function\<close> or \<open>Case\<close>; (3) an
  instance has no \<open>title\<close> attribute and any other item has a non-empty one; (5) an
  NL1I item of the Object Map has no children. The first violation aborts the parse.
  The spec names no error for a \<open>title\<close> on an instance; it is reported as
  \<open>MalformedMarkup\<close> here.
\<close>

fun parseItem :: "DiagramMap \<Rightarrow> nat \<Rightarrow> nat \<Rightarrow> xml_node \<Rightarrow> ParseError + DiagramItem"
and parseItems :: "DiagramMap \<Rightarrow> nat \<Rightarrow> nat \<Rightarrow> xml_node list \<Rightarrow> ParseError + DiagramItem list"
where
  "parseItem m col lvl (Element t as cs) =
     (case map_of as ''id'' of
        None \<Rightarrow> Inl (MissingRequiredAttribute t)
      | Some i \<Rightarrow>
     (case type_of_tag t of
        None \<Rightarrow> Inl (InvalidNesting i)
      | Some ty \<Rightarrow>
          if lvl = 0 \<and> ty \<noteq> root_type m then Inl (InvalidNesting i)
          else if lvl > 0 \<and> is_L1I ty then Inl (InvalidNesting i)
          else if map_of as ''instanceOf'' \<noteq> None \<and> map_of as ''title'' \<noteq> None
            then Inl (MalformedMarkup i)
          else if map_of as ''instanceOf'' = None
                  \<and> (map_of as ''title'' = None \<or> map_of as ''title'' = Some [])
            then Inl (MissingRequiredAttribute i)
          else
            (case parseItems m col (Suc lvl) cs of
               Inl e \<Rightarrow> Inl e
             | Inr kids \<Rightarrow>
                 if m = InObjectMap \<and> lvl > 0 \<and> kids \<noteq> [] then Inl (InvalidNesting i)
                 else Inr (DiagramItem i ty
                        (case map_of as ''title'' of None \<Rightarrow> [] | Some x \<Rightarrow> x) lvl
                        (map_of as ''instanceOf'') (map_of as ''linkTo'') kids
                        (if lvl = 0 then Some col else None)))))"
| "parseItems m col lvl [] = Inr []"
| "parseItems m col lvl (n # ns) =
     (case parseItem m col lvl n of
        Inl e \<Rightarrow> Inl e
      | Inr x \<Rightarrow> (case parseItems m col lvl ns of Inl e \<Rightarrow> Inl e | Inr xs \<Rightarrow> Inr (x # xs)))"

text \<open>
  Modelled from the spec: \<open>parseColumns\<close>, which is not in the sources. A map is a list
  of \<open>Column\<close> elements; the roots of the \<open>k\<close>-th column get \<open>columnIndex\<close> \<open>k\<close>.
\<close>

fun parseColumns :: "DiagramMap \<Rightarrow> nat \<Rightarrow> xml_node list \<Rightarrow> ParseError + DiagramItem list list"
where
  "parseColumns m k [] = Inr []"
| "parseColumns m k (Element t as cs # rest) =
     (if t \<noteq> ''Column'' then Inl (MalformedMarkup t)
      else (case parseItems m k 0 cs of
              Inl e \<Rightarrow> Inl e
            | Inr items \<Rightarrow>
                (case parseColumns m (Suc k) rest of
                   Inl e \<Rightarrow> Inl e
                 | Inr cols \<Rightarrow> Inr (items # cols))))"

text \<open>
  Modelled from the spec: the parser's checks of references, which are not in the
  sources. (4) An \<open>instanceOf\<close> resolves to an NL1I item of the Object Map; (6) every id
  of a \<open>linkTo\<close> resolves to an item of the same map as the item that links. Each check
  answers with the error of the item that fails it, or with nothing.
\<close>

fun first_error :: "('a \<Rightarrow> ParseError option) \<Rightarrow> 'a list \<Rightarrow> ParseError option" where
  "first_error check [] = None"
| "first_error check (x # xs) =
     (case check x of Some e \<Rightarrow> Some e | None \<Rightarrow> first_error check xs)"

definition checkInstance :: "Registry \<Rightarrow> DiagramItem list \<Rightarrow> DiagramItem \<Rightarrow> ParseError option"
  where
  "checkInstance reg object_items x =
     (case instanceOf x of
        None \<Rightarrow> None
      | Some t \<Rightarrow>
          (case lookup reg t of
             None \<Rightarrow> Some (DanglingReference (item_id x))
           | Some y \<Rightarrow>
               if \<not> is_L1I (item_type y) \<and> t \<in> set (map item_id object_items) then None
               else Some (DanglingReference (item_id x))))"

definition checkLinks :: "DiagramItem list \<Rightarrow> DiagramItem \<Rightarrow> ParseError option" where
  "checkLinks same_map x =
     first_error (\<lambda>l. if l \<in> set (map item_id same_map) then None
                       else Some (DanglingReference (item_id x))) (link_ids x)"

text \<open>
  Modelled from the spec: the validation of a built tree, which is not in the sources:
  (2) the registry is built, which fails on a duplicate id, then the instances and the
  links of both maps are checked. Any violation aborts: there is no partial tree.
\<close>

definition validate :: "ParsedData \<Rightarrow> ParseError + (ParsedData \<times> Registry)" where
  "validate d =
     (case build d of
        Inl e \<Rightarrow> Inl e
      | Inr reg \<Rightarrow>
          (case first_error (checkInstance reg (map_items (objectMap d))) (all_items d) of
             Some e \<Rightarrow> Inl e
           | None \<Rightarrow>
          (case first_error (checkLinks (map_items (objectMap d))) (map_items (objectMap d)) of
             Some e \<Rightarrow> Inl e
           | None \<Rightarrow>
          (case first_error (checkLinks (map_items (siteMap d))) (map_items (siteMap d)) of
             Some e \<Rightarrow> Inl e
           | None \<Rightarrow> Inr (d, reg)))))"

text \<open>
  Modelled from the spec: \<open>parseXML\<close>, which is not in the sources: the skeleton
  \<open><xml><Diagram><ObjectMap>...</ObjectMap><SiteMap>...</SiteMap></Diagram></xml>\<close>, the
  columns of both maps, then the validation. It answers with the tree and its registry,
  or with one error.
\<close>

fun parseXML :: "xml_node \<Rightarrow> ParseError + (ParsedData \<times> Registry)" where
  "parseXML (Element t0 a0 [Element t1 a1 [Element t2 a2 ocols, Element t3 a3 scols]]) =
     (if t0 \<noteq> ''xml'' \<or> t1 \<noteq> ''Diagram'' \<or> t2 \<noteq> ''ObjectMap'' \<or> t3 \<noteq> ''SiteMap''
        then Inl (MalformedMarkup t0)
      else (case parseColumns InObjectMap 0 ocols of
              Inl e \<Rightarrow> Inl e
            | Inr om \<Rightarrow>
                (case parseColumns InSiteMap 0 scols of
                   Inl e \<Rightarrow> Inl e
                 | Inr sm \<Rightarrow> validate \<lparr>objectMap = om, siteMap = sm\<rparr>)))"
| "parseXML (Element t0 a0 cs) = Inl (MalformedMarkup t0)"

text \<open>The title rule of one item: a title of its own exactly when it is no instance.\<close>

definition title_rule :: "DiagramItem \<Rightarrow> bool" where
  "title_rule x =
     ((instanceOf x = None \<longrightarrow> title x \<noteq> []) \<and> (instanceOf x \<noteq> None \<longrightarrow> title x = []))"

subsection \<open>Diff Engine\<close>

text \<open>
  Modelled from the spec: the index the Diff Engine reads, which is not in the sources
  (\<open>lib/diff/detector.ts\<close> and \<open>formatter.ts\<close> are to be extracted from the prototype).
  Every id of a tree is listed, in document order, with its item, the id of its
  structural parent (none for a root) and its path: the name of the map, then the
  displayed titles from the root down to the item.
\<close>

type_synonym entry = "DiagramItem \<times> string option \<times> string list"

fun index_item :: "Registry \<Rightarrow> string option \<Rightarrow> string list \<Rightarrow> DiagramItem
    \<Rightarrow> (string \<times> entry) list" where
  "index_item reg parent path (DiagramItem i ty t lvl inst lk kids col) =
     (i, (DiagramItem i ty t lvl inst lk kids col, parent,
          path @ [effective_title reg (DiagramItem i ty t lvl inst lk kids col)]))
     # concat (map (index_item reg (Some i)
                      (path @ [effective_title reg (DiagramItem i ty t lvl inst lk kids col)]))
                   kids)"

definition index_of :: "ParsedData \<times> Registry \<Rightarrow> (string \<times> entry) list" where
  "index_of tree =
     (case tree of (d, reg) \<Rightarrow>
        concat (map (index_item reg None [''ObjectMap'']) (concat (objectMap d)))
        @ concat (map (index_item reg None [''SiteMap'']) (concat (siteMap d))))"

text \<open>
  Modelled from the spec: the \<open>Change\<close> record, which is not in the sources: its kind,
  the id of the item, its path, and the deltas that apply: for \<open>Modified\<close> the old and
  new title (when the title changed) and the links added and removed; for \<open>Moved\<close> the
  old and new parent id.
\<close>

datatype Change =
    Added string "string list"
  | Removed string "string list"
  | Modified string "string list" "(string \<times> string) option" "string list" "string list"
  | Moved string "string list" "string option" "string option"

text \<open>
  Modelled from the spec: the classification of one id, which is not in the sources.
  Added: absent in old, present in new. Removed: present in old, absent in new.
  Modified: present in both, and the title differs (for non-instances) or the set of
  links differs. Moved: present in both and the id of the structural parent differs.
  The column of a root and the order among siblings are not looked at.
\<close>

definition modified :: "string \<Rightarrow> entry \<Rightarrow> entry \<Rightarrow> Change list" where
  "modified i e1 e2 =
     (case (e1, e2) of ((x1, parent1, path1), (x2, parent2, path2)) \<Rightarrow>
        (let title_delta = (if instanceOf x1 = None \<and> instanceOf x2 = None \<and> title x1 \<noteq> title x2
                            then Some (title x1, title x2) else None);
             link_added = filter (\<lambda>l. l \<notin> set (link_ids x1)) (link_ids x2);
             link_removed = filter (\<lambda>l. l \<notin> set (link_ids x2)) (link_ids x1)
         in if title_delta \<noteq> None \<or> link_added \<noteq> [] \<or> link_removed \<noteq> []
            then [Modified i path2 title_delta link_added link_removed] else []))"

definition moved :: "string \<Rightarrow> entry \<Rightarrow> entry \<Rightarrow> Change list" where
  "moved i e1 e2 =
     (case (e1, e2) of ((x1, parent1, path1), (x2, parent2, path2)) \<Rightarrow>
        if parent1 \<noteq> parent2 then [Moved i path2 parent1 parent2] else [])"

definition classify :: "(string \<times> entry) list \<Rightarrow> (string \<times> entry) list \<Rightarrow> string \<Rightarrow> Change list"
  where
  "classify old new i =
     (case (map_of old i, map_of new i) of
        (None, None) \<Rightarrow> []
      | (None, Some e2) \<Rightarrow> [Added i (snd (snd e2))]
      | (Some e1, None) \<Rightarrow> [Removed i (snd (snd e1))]
      | (Some e1, Some e2) \<Rightarrow> modified i e1 e2 @ moved i e1 e2)"

text \<open>
  Modelled from the spec: \<open>detectChanges\<close> (the spec's \<open>diff\<close>), which is not in the
  sources: the union of the ids of both trees, those of the old tree first, each
  classified.
\<close>

definition detectChanges :: "ParsedData \<times> Registry \<Rightarrow> ParsedData \<times> Registry \<Rightarrow> Change list"
  where
  "detectChanges oldTree newTree =
     (let old = index_of oldTree; new = index_of newTree
      in concat (map (classify old new) (remdups (map fst old @ map fst new))))"

text \<open>The Added and the Removed changes of a changeset, as pairs of id and path.\<close>

fun added :: "Change list \<Rightarrow> (string \<times> string list) list" where
  "added [] = []"
| "added (Added i p # cs) = (i, p) # added cs"
| "added (c # cs) = added cs"

fun removed :: "Change list \<Rightarrow> (string \<times> string list) list" where
  "removed [] = []"
| "removed (Removed i p # cs) = (i, p) # removed cs"
| "removed (c # cs) = removed cs"

subsection \<open>A small document\<close>

text \<open>
  An Object Map with the objects \<open>o1\<close> (which links to itself and to \<open>o2\<close>, and holds
  the info \<open>i1\<close> titled \<open>name\<close>) and \<open>o2\<close> (which links back to \<open>o1\<close>), and a Site Map
  with the page \<open>p1\<close>, which holds \<open>inst1\<close>, an instance of \<open>i1\<close>, the function \<open>f1\<close>
  nested in it, and the items \<open>extra\<close>.
\<close>

definition item_i1 :: "string \<Rightarrow> DiagramItem" where
  "item_i1 name = DiagramItem ''i1'' Info name 1 None None [] None"

definition item_o1 :: "string \<Rightarrow> DiagramItem" where
  "item_o1 name =
     DiagramItem ''o1'' Object ''User'' 0 None (Some ''o1,o2'') [item_i1 name] (Some 0)"

definition item_o2 :: DiagramItem where
  "item_o2 = DiagramItem ''o2'' Object ''Order'' 0 None (Some ''o1'') [] (Some 0)"

definition item_f1 :: DiagramItem where
  "item_f1 = DiagramItem ''f1'' Function ''Save'' 2 None (Some ''p1'') [] None"

definition item_inst1 :: DiagramItem where
  "item_inst1 = DiagramItem ''inst1'' Info [] 1 (Some ''i1'') None [item_f1] None"

definition item_f2 :: DiagramItem where
  "item_f2 = DiagramItem ''f2'' Function ''Export'' 1 None None [] None"

definition item_p1 :: "DiagramItem list \<Rightarrow> DiagramItem" where
  "item_p1 extra = DiagramItem ''p1'' Page ''Profile'' 0 None None (item_inst1 # extra) (Some 0)"

definition demo_data :: "string \<Rightarrow> DiagramItem list \<Rightarrow> ParsedData" where
  "demo_data name extra =
     \<lparr>objectMap = [[item_o1 name, item_o2]], siteMap = [[item_p1 extra]]\<rparr>"

definition demo_tree :: "string \<Rightarrow> DiagramItem list \<Rightarrow> ParsedData \<times> Registry" where
  "demo_tree name extra =
     (demo_data name extra,
      [(''o1'', item_o1 name), (''i1'', item_i1 name), (''o2'', item_o2),
       (''p1'', item_p1 extra), (''inst1'', item_inst1), (''f1'', item_f1)]
      @ map (\<lambda>x. (item_id x, x)) extra)"

definition demo_doc :: xml_node where
  "demo_doc =
     Element ''xml'' [] [Element ''Diagram'' []
       [Element ''ObjectMap'' []
          [Element ''Column'' []
             [Element ''Object'' [(''id'', ''o1''), (''title'', ''User''), (''linkTo'', ''o1,o2'')]
                [Element ''Info'' [(''id'', ''i1''), (''title'', ''Name'')] []],
              Element ''Object'' [(''id'', ''o2''), (''title'', ''Order''), (''linkTo'', ''o1'')]
                []]],
        Element ''SiteMap'' []
          [Element ''Column'' []
             [Element ''Page'' [(''id'', ''p1''), (''title'', ''Profile'')]
                [Element ''Info'' [(''id'', ''inst1''), (''instanceOf'', ''i1'')]
                   [Element ''Function''
                      [(''id'', ''f1''), (''title'', ''Save''), (''linkTo'', ''p1'')] []]]]]]]"

section \<open>Properties of the database layer\<close>

subsection \<open>LIKE and MAX\<close>

lemma sql_like_percent: "sql_like s ''%''"
  by (induction s) auto

lemma sql_like_literal_prefix:
  "CHR ''%'' \<notin> set p \<Longrightarrow> CHR ''_'' \<notin> set p \<Longrightarrow> sql_like s (p @ ''%'') = prefix p s"
proof (induction p arbitrary: s)
  case Nil
  then show ?case using sql_like_percent by simp
next
  case (Cons c p)
  then show ?case by (cases s) auto
qed

lemma xml_valid_format_prefix: "xml_valid_format x = prefix xml_prefix x"
  unfolding xml_valid_format_def
  by (rule sql_like_literal_prefix) (simp_all add: xml_prefix_def dq_def)

lemma xml_valid_format_default: "xml_valid_format default_xml"
  by (simp add: xml_valid_format_prefix xml_prefix_def default_xml_def)





subsection \<open>The expansion of the policies\<close>

text \<open>
  The expansion visits no table twice, and there are four tables: with the four steps
  that \<open>policy_recursion\<close> allows, it never stops for lack of steps, and more steps give
  the same answer.
\<close>

lemma relation_UNIV: "(UNIV :: relation set) = {on_profiles, on_projects, on_versions, on_project_sharing}"
  using relation.exhaust by auto

lemma distinct_relations: "distinct (xs :: relation list) \<Longrightarrow> length xs \<le> 4"
proof -
  assume d: "distinct xs"
  have fin: "finite (UNIV :: relation set)"
    by (simp add: relation_UNIV)
  have "card (set xs) \<le> card (UNIV :: relation set)"
    by (rule card_mono[OF fin]) simp
  also have "card (UNIV :: relation set) = 4"
    by (simp add: relation_UNIV)
  finally show ?thesis using d by (simp add: distinct_card)
qed

lemma expands_Suc:
  "distinct active \<Longrightarrow> 5 \<le> length active + n \<Longrightarrow> expands (Suc n) active t = expands n active t"
proof (induction n arbitrary: active t)
  case 0
  then show ?case using distinct_relations[of active] by simp
next
  case (Suc n)
  show ?case
  proof (cases "t \<in> set active")
    case True
    then show ?thesis by simp
  next
    case False
    with Suc.prems have "distinct (t # active)" "5 \<le> length (t # active) + n" by simp_all
    from Suc.IH[OF this] have "expands (Suc n) (t # active) = expands n (t # active)"
      by (rule ext)
    then show ?thesis by simp
  qed
qed

lemma expands_enough: "expands (4 + k) [t] y = expands 4 [t] y"
proof (induction k)
  case 0
  show ?case by simp
next
  case (Suc k)
  have "expands (Suc (4 + k)) [t] y = expands (4 + k) [t] y"
    by (rule expands_Suc) simp_all
  with Suc show ?case by simp
qed


lemma raises_recursion_owner: "raises_recursion db table_owner t c = False"
  by (simp add: raises_recursion_def)


lemma permits_simps:
  "permits db table_owner policy = True"
  "permits db (authenticated u) policy = (rls_policies db \<and> policy u)"
  by (simp_all add: permits_def)
subsection \<open>What a statement does to the versions\<close>

lemma if_Inl_eq_Inr: "((if c then Inl e else y) = Inr z) = (\<not> c \<and> y = Inr z)"
  by simp

lemma map_if_False: "map (\<lambda>r. if False then f r else r) xs = xs"
  by simp

lemma exec_versions_cases:
  assumes "exec s st db = Inr db'"
  shows "versions db' = versions db
    \<or> (\<exists>r. versions db' = versions db @ [r]
          \<and> in_int4 (ver_version_number r) \<and> xml_valid_format (ver_xml r)
          \<and> version_number_positive (ver_version_number r)
          \<and> project_exists db (ver_project_id r)
          \<and> ver_id r \<notin> set (map ver_id (versions db))
          \<and> (\<forall>v\<in>set (versions db). \<not> (ver_project_id v = ver_project_id r
                 \<and> ver_version_number v = ver_version_number r)))
    \<or> (\<exists>keep. versions db' = filter keep (versions db))
    \<or> (\<exists>hit f. versions db' = map (\<lambda>r. if hit r then f r else r) (versions db)
          \<and> (\<forall>r\<in>set (versions db). hit r \<longrightarrow>
                in_int4 (ver_version_number (f r)) \<and> xml_valid_format (ver_xml (f r))
                \<and> version_number_positive (ver_version_number (f r))
                \<and> project_exists db (ver_project_id (f r)))
          \<and> distinct (map ver_id (versions db'))
          \<and> distinct (map (\<lambda>v. (ver_project_id v, ver_version_number v)) (versions db')))"
proof (cases st)
  case (InsertVersion r)
  with assms show ?thesis
    by (clarsimp simp: insert_version_def list_ex_iff if_Inl_eq_Inr)
next
  case (UpdateVersion t f)
  let ?hit = "\<lambda>r. ver_id r = t \<and> versions_select_policy db (acts_as s) r
                      \<and> versions_update_policy db (acts_as s) r"
  from assms UpdateVersion
  have "versions db' = map (\<lambda>r. if ?hit r then f r else r) (versions db)
        \<and> (\<forall>r\<in>set (versions db). ?hit r \<longrightarrow>
                in_int4 (ver_version_number (f r)) \<and> xml_valid_format (ver_xml (f r))
                \<and> version_number_positive (ver_version_number (f r))
                \<and> project_exists db (ver_project_id (f r)))
        \<and> distinct (map ver_id (versions db'))
        \<and> distinct (map (\<lambda>v. (ver_project_id v, ver_version_number v)) (versions db'))"
    by (clarsimp simp: update_version_def Let_def if_Inl_eq_Inr list_ex_iff)
  then have "\<exists>hit f. versions db' = map (\<lambda>r. if hit r then f r else r) (versions db)
          \<and> (\<forall>r\<in>set (versions db). hit r \<longrightarrow>
                in_int4 (ver_version_number (f r)) \<and> xml_valid_format (ver_xml (f r))
                \<and> version_number_positive (ver_version_number (f r))
                \<and> project_exists db (ver_project_id (f r)))
          \<and> distinct (map ver_id (versions db'))
          \<and> distinct (map (\<lambda>v. (ver_project_id v, ver_version_number v)) (versions db'))"
    by (intro exI[of _ ?hit] exI[of _ f])
  then show ?thesis by (rule disjI2[OF disjI2[OF disjI2]])
next
  case (DeleteVersion t)
  with assms have "\<exists>keep. versions db' = filter keep (versions db)"
    by (auto simp: delete_version_def if_Inl_eq_Inr)
  then show ?thesis by blast
next
  case (DeleteProject t)
  with assms have "\<exists>keep. versions db' = filter keep (versions db)"
    by (auto simp: delete_project_def Let_def if_Inl_eq_Inr)
  then show ?thesis by blast
next
  case (SignUp i e n)
  with assms show ?thesis
    by (clarsimp simp: sign_up_def if_Inl_eq_Inr)
next
  case (UpdateProfile t f)
  with assms show ?thesis
    by (clarsimp simp: update_profile_def Let_def if_Inl_eq_Inr)
next
  case (InsertProject r x)
  with assms show ?thesis
    by (clarsimp simp: insert_project_def Let_def if_Inl_eq_Inr)
next
  case (UpdateProject t f)
  with assms show ?thesis
    by (clarsimp simp: update_project_def Let_def if_Inl_eq_Inr)
next
  case (InsertSharing r)
  with assms show ?thesis
    by (clarsimp simp: insert_sharing_def if_Inl_eq_Inr)
next
  case (UpdateSharing t f)
  with assms show ?thesis
    by (clarsimp simp: update_sharing_def Let_def if_Inl_eq_Inr)
next
  case (DeleteSharing t)
  with assms show ?thesis
    by (clarsimp simp: delete_sharing_def if_Inl_eq_Inr)
qed


subsection \<open>Invariants of the reachable databases\<close>

lemma exec_projects_xml:
  assumes "exec s st db = Inr db'" and "\<forall>r\<in>set (projects db). xml_valid_format (prj_xml r)"
  shows "\<forall>r\<in>set (projects db'). xml_valid_format (prj_xml r)"
proof (cases st)
  case (InsertProject r x)
  with assms show ?thesis
    by (clarsimp simp: insert_project_def Let_def if_Inl_eq_Inr) auto
next
  case (UpdateProject t f)
  with assms show ?thesis
    by (clarsimp simp: update_project_def Let_def if_Inl_eq_Inr list_ex_iff) auto
next
  case (DeleteProject t)
  with assms show ?thesis
    by (clarsimp simp: delete_project_def Let_def if_Inl_eq_Inr)
next
  case (InsertVersion r)
  with assms show ?thesis
    by (clarsimp simp: insert_version_def if_Inl_eq_Inr)
next
  case (UpdateVersion t f)
  with assms show ?thesis
    by (clarsimp simp: update_version_def Let_def if_Inl_eq_Inr)
next
  case (DeleteVersion t)
  with assms show ?thesis
    by (clarsimp simp: delete_version_def if_Inl_eq_Inr)
next
  case (SignUp i e n)
  with assms show ?thesis
    by (clarsimp simp: sign_up_def if_Inl_eq_Inr)
next
  case (UpdateProfile t f)
  with assms show ?thesis
    by (clarsimp simp: update_profile_def Let_def if_Inl_eq_Inr)
next
  case (InsertSharing r)
  with assms show ?thesis
    by (clarsimp simp: insert_sharing_def if_Inl_eq_Inr)
next
  case (UpdateSharing t f)
  with assms show ?thesis
    by (clarsimp simp: update_sharing_def Let_def if_Inl_eq_Inr)
next
  case (DeleteSharing t)
  with assms show ?thesis
    by (clarsimp simp: delete_sharing_def if_Inl_eq_Inr)
qed


lemma exec_versions_xml:
  assumes "exec s st db = Inr db'" and "\<forall>v\<in>set (versions db). xml_valid_format (ver_xml v)"
  shows "\<forall>v\<in>set (versions db'). xml_valid_format (ver_xml v)"
  using exec_versions_cases[OF assms(1)] assms(2) by auto



lemma reachable_projects_xml:
  "reachable db \<Longrightarrow> \<forall>r\<in>set (projects db). xml_valid_format (prj_xml r)"
  by (induction rule: reachable.induct) (simp add: empty_database_def, rule exec_projects_xml)

lemma reachable_versions_xml:
  "reachable db \<Longrightarrow> \<forall>v\<in>set (versions db). xml_valid_format (ver_xml v)"
  by (induction rule: reachable.induct) (simp add: empty_database_def, rule exec_versions_xml)





subsection \<open>The small database is reachable\<close>

lemma name_demo: "name_not_empty ''Demo''" "name_not_empty ''Initial Design''"
  by (simp_all add: name_not_empty_def sql_trim_def)

lemma reachable_demo_db:
  assumes "0 < n" and "n \<le> int4_max"
  shows "reachable (demo_db installed n)"
proof -
  let ?d1 = "(empty_database installed)\<lparr>profiles := [alice_profile]\<rparr>"
  let ?d2 = "?d1\<lparr>projects := [demo_project]\<rparr>"
  have "exec owner_session (SignUp ''alice'' ''alice@example.org'' None)
          (empty_database installed) = Inr ?d1"
    by (simp add: sign_up_def empty_database_def owner_session_def alice_profile_def)
  then have r1: "reachable ?d1"
    using reachable_empty reachable_exec by blast
  have "exec owner_session (InsertProject demo_project None) ?d1 = Inr ?d2"
    by (simp add: insert_project_def Let_def projects_insert_policy_def owner_session_def
          raises_recursion_owner permits_simps
          project_exists_def profile_exists_def empty_database_def xml_valid_format_default
          demo_project_def alice_profile_def name_demo)
  then have r2: "reachable ?d2"
    using r1 reachable_exec by blast
  have "exec owner_session (InsertVersion (demo_version n)) ?d2 = Inr (demo_db installed n)"
    using assms
    by (simp add: insert_version_def versions_insert_policy_def owner_session_def
          raises_recursion_owner permits_simps
          project_exists_def profile_exists_def empty_database_def
          xml_valid_format_default demo_project_def alice_profile_def name_demo
          demo_version_def demo_db_def in_int4_def int4_min_def version_number_positive_def)
  then show ?thesis
    using r2 reachable_exec by blast
qed

subsection \<open>Version numbers\<close>







subsection \<open>Versions and the statements\<close>








subsection \<open>Edit permission\<close>

text \<open>
  Claim C9. \<open>user_can_edit_project(u, p)\<close> is true exactly when \<open>u\<close> owns \<open>p\<close> or a
  sharing row for \<open>(p, u)\<close> has the permission \<open>edit\<close> and has been accepted; a user
  who does not own \<open>p\<close> and whose shares of \<open>p\<close> are all pending or \<open>view\<close> cannot
  edit.
\<close>

theorem user_can_edit_project_iff:
  "(user_can_edit_project db u p \<longleftrightarrow>
      ((\<exists>r\<in>set (projects db). prj_id r = p \<and> prj_owner_id r = u)
       \<or> (\<exists>r\<in>set (project_sharing db). shr_project_id r = p \<and> shr_user_id r = u
             \<and> shr_permission r = ''edit'' \<and> shr_accepted_at r \<noteq> None)))
   \<and> ((\<forall>r\<in>set (projects db). prj_id r = p \<longrightarrow> prj_owner_id r \<noteq> u)
       \<and> (\<forall>r\<in>set (project_sharing db). shr_project_id r = p \<and> shr_user_id r = u
             \<longrightarrow> shr_permission r = ''view'' \<or> shr_accepted_at r = None)
       \<longrightarrow> \<not> user_can_edit_project db u p)"
  by (auto simp: user_can_edit_project_def list_ex_iff)

text \<open>
  The owner and the accepted editor can edit; the invited editor who has not accepted
  and the accepted viewer cannot.
\<close>

theorem user_can_edit_project_iff_witness:
  "user_can_edit_project shared_db ''alice'' ''p1''
   \<and> user_can_edit_project shared_db ''bob'' ''p1''
   \<and> \<not> user_can_edit_project shared_db ''carol'' ''p1''
   \<and> \<not> user_can_edit_project shared_db ''dave'' ''p1''"
  using user_can_edit_project_iff[of shared_db "''alice''" "''p1''"]
    user_can_edit_project_iff[of shared_db "''bob''" "''p1''"]
    user_can_edit_project_iff[of shared_db "''carol''" "''p1''"]
    user_can_edit_project_iff[of shared_db "''dave''" "''p1''"]
  by (simp add: shared_db_def demo_share_def demo_project_def)

subsection \<open>Stored documents\<close>

lemma insert_project_default:
  "insert_project s r None db = Inr db' \<Longrightarrow> projects db' = projects db @ [r\<lparr>prj_xml := default_xml\<rparr>]"
  by (clarsimp simp: insert_project_def Let_def if_Inl_eq_Inr)

text \<open>
  Claim C10. In every database the statements can build, the \<open>xml\<close> of every project
  and of every version begins with the header \<open><?xml version="1.0"\<close>: the check
  constraint refuses any other value on insert and on update. A project inserted without
  an \<open>xml\<close> is stored with the empty skeleton: the UTF-8 header, then \<open><xml>\<close> and
  \<open><Diagram>\<close> around an empty \<open><ObjectMap>\<close> and an empty \<open><SiteMap>\<close>.
\<close>

theorem stored_xml_has_header:
  assumes "reachable db"
  shows "(\<forall>r\<in>set (projects db). prefix xml_prefix (prj_xml r))
    \<and> (\<forall>v\<in>set (versions db). prefix xml_prefix (ver_xml v))
    \<and> (\<forall>s r db'. insert_project s r None db = Inr db' \<longrightarrow>
          projects db' = projects db @ [r\<lparr>prj_xml :=
             xml_prefix @ '' encoding='' @ [dq] @ ''UTF-8'' @ [dq] @ ''?>\<newline>''
             @ ''<xml>\<newline>''
             @ ''  <Diagram>\<newline>''
             @ ''    <ObjectMap>\<newline>''
             @ ''    </ObjectMap>\<newline>''
             @ ''    <SiteMap>\<newline>''
             @ ''    </SiteMap>\<newline>''
             @ ''  </Diagram>\<newline>''
             @ ''</xml>''\<rparr>])"
proof -
  have d: "default_xml = xml_prefix @ '' encoding='' @ [dq] @ ''UTF-8'' @ [dq] @ ''?>\<newline>''
             @ ''<xml>\<newline>''
             @ ''  <Diagram>\<newline>''
             @ ''    <ObjectMap>\<newline>''
             @ ''    </ObjectMap>\<newline>''
             @ ''    <SiteMap>\<newline>''
             @ ''    </SiteMap>\<newline>''
             @ ''  </Diagram>\<newline>''
             @ ''</xml>''"
    by (simp add: default_xml_def xml_prefix_def)
  show ?thesis
    using reachable_projects_xml[OF assms] reachable_versions_xml[OF assms]
      insert_project_default[of _ _ db]
    unfolding d[symmetric] xml_valid_format_prefix by blast
qed

text \<open>
  The documents of the small database begin with the header, and a second project
  of Alice, inserted there without a document, receives the skeleton.
\<close>

theorem stored_xml_has_header_witness:
  "reachable (demo_db True 1)
   \<and> prefix xml_prefix (prj_xml demo_project)
   \<and> prefix xml_prefix (ver_xml (demo_version 1))
   \<and> insert_project owner_session second_project None (demo_db True 1)
       = Inr ((demo_db True 1)\<lparr>projects :=
                [demo_project, second_project\<lparr>prj_xml := default_xml\<rparr>]\<rparr>)"
proof -
  have r: "reachable (demo_db True 1)"
    by (rule reachable_demo_db) (simp_all add: int4_max_def)
  have i: "insert_project owner_session second_project None (demo_db True 1)
       = Inr ((demo_db True 1)\<lparr>projects :=
                [demo_project, second_project\<lparr>prj_xml := default_xml\<rparr>]\<rparr>)"
    by (simp add: insert_project_def Let_def projects_insert_policy_def owner_session_def
          raises_recursion_owner permits_simps
          project_exists_def profile_exists_def xml_valid_format_default second_project_def
          demo_project_def alice_profile_def name_demo demo_db_def)
  from stored_xml_has_header[OF r] r i show ?thesis
    by (simp add: demo_db_def)
qed

section \<open>Properties of the diagram document engine\<close>

subsection \<open>What a successful parse has checked\<close>

lemma sum_case_Inr:
  "(case s of Inl e \<Rightarrow> Inl e | Inr v \<Rightarrow> f v) = Inr r \<longleftrightarrow> (\<exists>v. s = Inr v \<and> f v = Inr r)"
  by (cases s) auto

lemma parseItem_Inr:
  assumes "parseItem m col lvl (Element t as cs) = Inr x"
  obtains i ty kids where
    "map_of as ''id'' = Some i" "type_of_tag t = Some ty"
    "\<not> (lvl = 0 \<and> ty \<noteq> root_type m)" "\<not> (0 < lvl \<and> is_L1I ty)"
    "\<not> (map_of as ''instanceOf'' \<noteq> None \<and> map_of as ''title'' \<noteq> None)"
    "\<not> (map_of as ''instanceOf'' = None
        \<and> (map_of as ''title'' = None \<or> map_of as ''title'' = Some []))"
    "parseItems m col (Suc lvl) cs = Inr kids"
    "\<not> (m = InObjectMap \<and> lvl > 0 \<and> kids \<noteq> [])"
    "x = DiagramItem i ty (case map_of as ''title'' of None \<Rightarrow> [] | Some x \<Rightarrow> x) lvl
            (map_of as ''instanceOf'') (map_of as ''linkTo'') kids
            (if lvl = 0 then Some col else None)"
proof (cases "map_of as ''id''")
  case None
  with assms show ?thesis by simp
next
  case (Some i)
  show ?thesis
  proof (cases "type_of_tag t")
    case None
    with assms Some show ?thesis by simp
  next
    case ty: (Some ty)
    from assms Some ty that[of i ty] show ?thesis
      by (simp add: if_Inl_eq_Inr sum_case_Inr del: parseItem.simps(1) parseItems.simps
               add: parseItem.simps(1)) blast
  qed
qed

lemma parse_title_rule:
  "parseItem m col lvl n = Inr x \<Longrightarrow> \<forall>y\<in>set (items_of x). title_rule y"
  "parseItems m col lvl ns = Inr xs \<Longrightarrow> \<forall>y\<in>set (concat (map items_of xs)). title_rule y"
proof (induction m col lvl n and m col lvl ns arbitrary: x and xs rule: parseItem_parseItems.induct)
  case (1 m col lvl t as cs)
  from "1.prems" obtain i ty kids where f:
    "map_of as ''id'' = Some i" "type_of_tag t = Some ty"
    "\<not> (lvl = 0 \<and> ty \<noteq> root_type m)" "\<not> (0 < lvl \<and> is_L1I ty)"
    "\<not> (map_of as ''instanceOf'' \<noteq> None \<and> map_of as ''title'' \<noteq> None)"
    "\<not> (map_of as ''instanceOf'' = None
        \<and> (map_of as ''title'' = None \<or> map_of as ''title'' = Some []))"
    "parseItems m col (Suc lvl) cs = Inr kids"
    and x: "x = DiagramItem i ty (case map_of as ''title'' of None \<Rightarrow> [] | Some x \<Rightarrow> x) lvl
            (map_of as ''instanceOf'') (map_of as ''linkTo'') kids
            (if lvl = 0 then Some col else None)"
    by (rule parseItem_Inr)
  have "\<forall>y\<in>set (concat (map items_of kids)). title_rule y"
    by (rule "1.IH"[OF f])
  moreover have "title_rule x"
    using f(5,6) unfolding x title_rule_def by (auto split: option.splits)
  ultimately show ?case unfolding x by simp
next
  case (2 m col lvl)
  then show ?case by simp
next
  case (3 m col lvl n ns)
  from "3.prems" obtain y ys where
    y: "parseItem m col lvl n = Inr y" and ys: "parseItems m col lvl ns = Inr ys"
    and xs: "xs = y # ys"
    by (auto simp: sum_case_Inr)
  from "3.IH"(1)[OF y] "3.IH"(2)[OF y ys] show ?case unfolding xs by auto
qed

lemma parseColumns_title_rule:
  "parseColumns m k cols = Inr cs \<Longrightarrow> \<forall>y\<in>set (map_items cs). title_rule y"
proof (induction m k cols arbitrary: cs rule: parseColumns.induct)
  case (1 m k)
  then show ?case by (simp add: map_items_def)
next
  case (2 m k t as ns rest)
  from "2.prems" obtain items cols' where
    t: "t = ''Column''" and items: "parseItems m k 0 ns = Inr items"
    and cols': "parseColumns m (Suc k) rest = Inr cols'" and cs: "cs = items # cols'"
    by (auto simp: if_Inl_eq_Inr sum_case_Inr)
  have "\<not> t \<noteq> ''Column''" using t by simp
  from "2.IH"[OF this items cols'] parse_title_rule(2)[OF items]
  show ?case unfolding cs by (auto simp: map_items_def)
qed

lemma first_error_None: "first_error check xs = None \<longleftrightarrow> (\<forall>x\<in>set xs. check x = None)"
  by (induction xs) (auto split: option.splits)

lemma register_Inr:
  "register xs acc = Inr reg \<Longrightarrow>
     reg = acc @ map (\<lambda>x. (item_id x, x)) xs
     \<and> (distinct (map fst acc) \<longrightarrow> distinct (map fst reg))"
proof (induction xs arbitrary: acc)
  case Nil
  then show ?case by simp
next
  case (Cons x xs)
  from Cons.prems have fresh: "map_of acc (item_id x) = None"
    and rest: "register xs (acc @ [(item_id x, x)]) = Inr reg"
    by (auto split: if_splits)
  from fresh have new: "item_id x \<notin> fst ` set acc"
    by (simp add: map_of_eq_None_iff)
  from Cons.IH[OF rest]
  have reg: "reg = (acc @ [(item_id x, x)]) @ map (\<lambda>x. (item_id x, x)) xs"
    and dist: "distinct (map fst (acc @ [(item_id x, x)])) \<longrightarrow> distinct (map fst reg)"
    by blast+
  from new have "distinct (map fst acc) \<longrightarrow> distinct (map fst (acc @ [(item_id x, x)]))"
    by simp
  with dist have "distinct (map fst acc) \<longrightarrow> distinct (map fst reg)" by blast
  with reg show ?case by simp
qed

lemma register_registry:
  assumes "register xs [] = Inr reg"
  shows "reg = map (\<lambda>x. (item_id x, x)) xs" and "distinct (map item_id xs)"
proof -
  from register_Inr[OF assms] show r: "reg = map (\<lambda>x. (item_id x, x)) xs" by simp
  have m: "map fst reg = map item_id xs" unfolding r by (simp add: o_def)
  from register_Inr[OF assms, THEN conjunct2] have "distinct (map fst reg)" by simp
  then show "distinct (map item_id xs)" unfolding m .
qed

lemma lookup_registry:
  assumes "register xs [] = Inr reg" and "y \<in> set xs"
  shows "lookup reg (item_id y) = Some y"
proof -
  from register_registry[OF assms(1)]
  have r: "reg = map (\<lambda>x. (item_id x, x)) xs" and "distinct (map item_id xs)"
    by blast+
  then have d: "distinct (map fst reg)" by (simp add: o_def)
  from assms(2) have "(item_id y, y) \<in> set reg" unfolding r by auto
  with d show ?thesis unfolding lookup_def by simp
qed

lemma validate_Inr:
  assumes "validate d = Inr (d', reg)"
  shows "d' = d" and "register (all_items d) [] = Inr reg"
    and "\<forall>x\<in>set (all_items d). checkInstance reg (map_items (objectMap d)) x = None"
    and "\<forall>x\<in>set (map_items (objectMap d)). checkLinks (map_items (objectMap d)) x = None"
    and "\<forall>x\<in>set (map_items (siteMap d)). checkLinks (map_items (siteMap d)) x = None"
  using assms unfolding validate_def build_def
  by (auto simp: first_error_None split: sum.splits option.splits)

lemma parseXML_Inr:
  assumes "parseXML doc = Inr (d, reg)"
  obtains ocols scols a0 a1 a2 a3 where
    "doc = Element ''xml'' a0 [Element ''Diagram'' a1
             [Element ''ObjectMap'' a2 ocols, Element ''SiteMap'' a3 scols]]"
    "parseColumns InObjectMap 0 ocols = Inr (objectMap d)"
    "parseColumns InSiteMap 0 scols = Inr (siteMap d)"
    "validate d = Inr (d, reg)"
proof -
  from assms obtain ocols scols t0 t1 t2 t3 a0 a1 a2 a3 where
    doc: "doc = Element t0 a0 [Element t1 a1 [Element t2 a2 ocols, Element t3 a3 scols]]"
    by (cases doc rule: parseXML.cases) auto
  from assms[unfolded doc] obtain om sm where
    tags: "t0 = ''xml''" "t1 = ''Diagram''" "t2 = ''ObjectMap''" "t3 = ''SiteMap''"
    and om: "parseColumns InObjectMap 0 ocols = Inr om"
    and sm: "parseColumns InSiteMap 0 scols = Inr sm"
    and v: "validate \<lparr>objectMap = om, siteMap = sm\<rparr> = Inr (d, reg)"
    by (auto simp: if_Inl_eq_Inr sum_case_Inr)
  from validate_Inr(1)[OF v] have d: "d = \<lparr>objectMap = om, siteMap = sm\<rparr>" by simp
  show ?thesis
    using that[of a0 a1 a2 ocols a3 scols] doc tags om sm v unfolding d by simp
qed

lemma parsed_title_rule:
  assumes "parseXML doc = Inr (d, reg)"
  shows "\<forall>x\<in>set (all_items d). title_rule x"
proof -
  from assms obtain ocols scols where
    "parseColumns InObjectMap 0 ocols = Inr (objectMap d)"
    "parseColumns InSiteMap 0 scols = Inr (siteMap d)"
    by (rule parseXML_Inr)
  from parseColumns_title_rule[OF this(1)] parseColumns_title_rule[OF this(2)]
  show ?thesis by (auto simp: all_items_def)
qed

lemma parsed_registry:
  assumes "parseXML doc = Inr (d, reg)"
  shows "distinct (map item_id (all_items d))"
    and "\<forall>y\<in>set (all_items d). lookup reg (item_id y) = Some y"
proof -
  from assms have v: "validate d = Inr (d, reg)" by (rule parseXML_Inr)
  from register_registry(2)[OF validate_Inr(2)[OF v]]
  show "distinct (map item_id (all_items d))" .
  from lookup_registry[OF validate_Inr(2)[OF v]]
  show "\<forall>y\<in>set (all_items d). lookup reg (item_id y) = Some y" by blast
qed

lemma is_L1I_iff: "\<not> is_L1I ty \<longleftrightarrow> ty = Info \<or> ty = Function \<or> ty = Case"
  by (cases ty) (simp_all add: is_L1I_def)

lemmas demo_defs = demo_tree_def demo_data_def item_o1_def item_i1_def item_o2_def item_p1_def
  item_inst1_def item_f1_def item_f2_def

lemma parse_demo_doc: "parseXML demo_doc = Inr (demo_tree ''Name'' [])"
  by (simp add: demo_doc_def demo_defs type_of_tag_def root_type_def is_L1I_def validate_def build_def
        all_items_def map_items_def checkInstance_def checkLinks_def lookup_def link_ids_def)

subsection \<open>Titles and instances\<close>

text \<open>
  Claim C3. In a successfully parsed document every item that is not an instance has a
  non-empty title, and every instance carries no title of its own (its \<open>title\<close> is
  empty): its \<open>instanceOf\<close> resolves in the registry to an \<open>Info\<close>, \<open>Function\<close> or
  \<open>Case\<close> item of the Object Map, and the title it displays is that item's.
\<close>

theorem parsed_titles:
  assumes "parseXML doc = Inr (d, reg)"
  shows "\<forall>x\<in>set (all_items d).
           (instanceOf x = None \<longrightarrow> title x \<noteq> [])
         \<and> (\<forall>t. instanceOf x = Some t \<longrightarrow>
               title x = []
             \<and> (\<exists>y\<in>set (map_items (objectMap d)).
                   item_id y = t \<and> lookup reg t = Some y
                 \<and> (item_type y = Info \<or> item_type y = Function \<or> item_type y = Case)
                 \<and> effective_title reg x = title y))"
proof
  fix x assume x: "x \<in> set (all_items d)"
  from parsed_title_rule[OF assms] x have tr: "title_rule x" by blast
  from assms have v: "validate d = Inr (d, reg)" by (rule parseXML_Inr)
  have inst: "checkInstance reg (map_items (objectMap d)) x = None"
    using validate_Inr(3)[OF v] x by blast
  have "\<exists>y\<in>set (map_items (objectMap d)).
                   item_id y = t \<and> lookup reg t = Some y
                 \<and> (item_type y = Info \<or> item_type y = Function \<or> item_type y = Case)
                 \<and> effective_title reg x = title y" if t: "instanceOf x = Some t" for t
  proof -
    from inst t obtain z where z: "lookup reg t = Some z" "\<not> is_L1I (item_type z)"
      and mem: "t \<in> set (map item_id (map_items (objectMap d)))"
      by (auto simp: checkInstance_def split: option.splits if_splits)
    from mem obtain y where y: "y \<in> set (map_items (objectMap d))" "item_id y = t" by auto
    then have "y \<in> set (all_items d)" by (simp add: all_items_def)
    with parsed_registry(2)[OF assms] y(2) have "lookup reg t = Some y" by auto
    with z have "z = y" by simp
    with z y t show ?thesis
      by (auto simp: is_L1I_iff effective_title_def)
  qed
  with tr show "(instanceOf x = None \<longrightarrow> title x \<noteq> [])
         \<and> (\<forall>t. instanceOf x = Some t \<longrightarrow>
               title x = []
             \<and> (\<exists>y\<in>set (map_items (objectMap d)).
                   item_id y = t \<and> lookup reg t = Some y
                 \<and> (item_type y = Info \<or> item_type y = Function \<or> item_type y = Case)
                 \<and> effective_title reg x = title y))"
    by (auto simp: title_rule_def)
qed

text \<open>
  In the small document the info \<open>i1\<close> has the title \<open>Name\<close>, and its instance
  \<open>inst1\<close> has none and displays \<open>Name\<close>.
\<close>

theorem parsed_titles_witness:
  "parseXML demo_doc = Inr (demo_tree ''Name'' [])
   \<and> instanceOf (item_i1 ''Name'') = None \<and> title (item_i1 ''Name'') = ''Name''
   \<and> instanceOf item_inst1 = Some ''i1'' \<and> title item_inst1 = []
   \<and> effective_title (snd (demo_tree ''Name'' [])) item_inst1 = ''Name''"
proof -
  have p: "parseXML demo_doc = Inr (demo_data ''Name'' [], snd (demo_tree ''Name'' []))"
    using parse_demo_doc by (simp add: demo_tree_def)
  have "item_inst1 \<in> set (all_items (demo_data ''Name'' []))"
    by (simp add: all_items_def map_items_def demo_defs)
  with parsed_titles[OF p]
  have "\<forall>t. instanceOf item_inst1 = Some t \<longrightarrow>
               title item_inst1 = []
             \<and> (\<exists>y\<in>set (map_items (objectMap (demo_data ''Name'' []))).
                   item_id y = t \<and> lookup (snd (demo_tree ''Name'' [])) t = Some y
                 \<and> (item_type y = Info \<or> item_type y = Function \<or> item_type y = Case)
                 \<and> effective_title (snd (demo_tree ''Name'' [])) item_inst1 = title y)"
    by blast
  moreover have i: "instanceOf item_inst1 = Some ''i1''" by (simp add: item_inst1_def)
  ultimately have "title item_inst1 = []"
    and "\<exists>y\<in>set (map_items (objectMap (demo_data ''Name'' []))).
                   item_id y = ''i1''
                 \<and> effective_title (snd (demo_tree ''Name'' [])) item_inst1 = title y"
    by blast+
  then have "effective_title (snd (demo_tree ''Name'' [])) item_inst1 = ''Name''"
    by (auto simp: map_items_def demo_defs)
  with parse_demo_doc i \<open>title item_inst1 = []\<close> show ?thesis
    by (simp add: item_i1_def)
qed

subsection \<open>Diff symmetry\<close>

lemma modified_same: "modified i e e = []"
  by (cases e) (simp add: modified_def)

lemma moved_same: "moved i e e = []"
  by (cases e) (simp add: moved_def)

lemma classify_same: "classify ix ix i = []"
  by (simp add: classify_def modified_same moved_same split: option.splits)

lemma detectChanges_same: "detectChanges t t = []"
  by (simp add: detectChanges_def Let_def classify_same)

lemma set_added: "set (added cs) = {(i, p). Added i p \<in> set cs}"
  by (induction cs rule: added.induct) auto

lemma set_removed: "set (removed cs) = {(i, p). Removed i p \<in> set cs}"
  by (induction cs rule: removed.induct) auto

lemma Added_classify:
  "Added i p \<in> set (classify old new j) \<longleftrightarrow>
     j = i \<and> map_of old i = None \<and> (\<exists>e. map_of new i = Some e \<and> snd (snd e) = p)"
  by (cases "map_of old j"; cases "map_of new j")
     (auto simp: classify_def modified_def moved_def Let_def split: prod.splits)

lemma Removed_classify:
  "Removed i p \<in> set (classify old new j) \<longleftrightarrow>
     j = i \<and> map_of new i = None \<and> (\<exists>e. map_of old i = Some e \<and> snd (snd e) = p)"
  by (cases "map_of old j"; cases "map_of new j")
     (auto simp: classify_def modified_def moved_def Let_def split: prod.splits)

lemma map_of_Some_fst: "map_of xs i = Some e \<Longrightarrow> i \<in> fst ` set xs"
  by (drule map_of_SomeD) force

lemma Added_detectChanges:
  "Added i p \<in> set (detectChanges a b) \<longleftrightarrow>
     map_of (index_of a) i = None \<and> (\<exists>e. map_of (index_of b) i = Some e \<and> snd (snd e) = p)"
  by (auto simp: detectChanges_def Let_def Added_classify dest: map_of_Some_fst)

lemma Removed_detectChanges:
  "Removed i p \<in> set (detectChanges a b) \<longleftrightarrow>
     map_of (index_of b) i = None \<and> (\<exists>e. map_of (index_of a) i = Some e \<and> snd (snd e) = p)"
  by (auto simp: detectChanges_def Let_def Removed_classify dest: map_of_Some_fst)

text \<open>
  Claim C2. For all trees \<open>a\<close> and \<open>b\<close>, the Added changes of \<open>diff(a, b)\<close> are, as a
  set of ids with their paths, the Removed changes of \<open>diff(b, a)\<close>, and the other way
  round; and \<open>diff(a, a)\<close> is the empty changeset.
\<close>

theorem detectChanges_symmetry:
  "set (added (detectChanges a b)) = set (removed (detectChanges b a))
   \<and> set (removed (detectChanges a b)) = set (added (detectChanges b a))
   \<and> detectChanges a a = []"
  by (simp add: set_added set_removed Added_detectChanges Removed_detectChanges
        detectChanges_same)

text \<open>
  Renaming \<open>i1\<close> and adding the function \<open>f2\<close> is one Modified and one Added
  change; backwards, \<open>f2\<close> is the one Removed change.
\<close>

theorem detectChanges_symmetry_witness:
  "detectChanges (demo_tree ''Name'' []) (demo_tree ''Name2'' [item_f2])
     = [Modified ''i1'' [''ObjectMap'', ''User'', ''Name2''] (Some (''Name'', ''Name2'')) [] [],
        Added ''f2'' [''SiteMap'', ''Profile'', ''Export'']]
   \<and> set (removed (detectChanges (demo_tree ''Name2'' [item_f2]) (demo_tree ''Name'' [])))
     = {(''f2'', [''SiteMap'', ''Profile'', ''Export''])}
   \<and> detectChanges (demo_tree ''Name'' []) (demo_tree ''Name'' []) = []"
proof -
  have d: "detectChanges (demo_tree ''Name'' []) (demo_tree ''Name2'' [item_f2])
     = [Modified ''i1'' [''ObjectMap'', ''User'', ''Name2''] (Some (''Name'', ''Name2'')) [] [],
        Added ''f2'' [''SiteMap'', ''Profile'', ''Export'']]"
    by (simp add: detectChanges_def index_of_def demo_defs effective_title_def lookup_def
          classify_def modified_def moved_def link_ids_def Let_def)
  from detectChanges_symmetry[of "demo_tree ''Name'' []" "demo_tree ''Name2'' [item_f2]"] d
  show ?thesis by simp
qed


end
